theory Spec2Isabelle
  imports Main
begin

section \<open>Data model of the experiment browser (artemis/experiments/ui.py)\<close>

text \<open>
  A raised Python exception is a value. Only the exceptions that the modelled code can
  produce by itself have a constructor of their own; everything raised by a collaborator
  outside this file is \<open>Raised\<close> with its message.
\<close>

datatype exn = EOFError | SystemExit | IndexError | AssertionError | Raised string

text \<open>The enumeration \<open>ExpRecordDisplayFields\<close> of the displayable record fields.\<close>

datatype ExpRecordDisplayFields = RUNS | DURATION | STATUS | ARGS_CHANGED | RESULT_STR | NOTES

text \<open>
  A loaded experiment record, as far as the field getters look at it. The record class
  lives outside this file, so each field holds what the corresponding call returns or
  raises for this record:
  \<^item> \<open>timestamp_text\<close>, \<open>runtime_text\<close>, \<open>status_text\<close>:
    \<open>rec.info.get_field_text\<close> of TIMESTAMP, RUNTIME and STATUS;
  \<^item> \<open>invalid_arg_string\<close>: \<open>get_record_invalid_arg_string(rec)\<close>;
  \<^item> \<open>oneline_result_string\<close>: \<open>get_oneline_result_string(rec)\<close>;
  \<^item> \<open>has_field_notes\<close>, \<open>get_field_notes\<close>: \<open>rec.info.has_field(NOTES)\<close> and
    \<open>rec.info.get_field(NOTES)\<close> (\<open>None\<close> or a list of notes).
\<close>

record experiment_record =
  timestamp_text :: "exn + string"
  runtime_text :: "exn + string"
  status_text :: "exn + string"
  invalid_arg_string :: "exn + string"
  oneline_result_string :: "exn + string"
  has_field_notes :: bool
  get_field_notes :: "exn + string list option"

text \<open>
  The collaborators of the row fetchers that are defined in other modules, taken as
  parameters: the record loader, the hash of the cache key and the string truncation
  \<open>truncate_string(string, truncation, message)\<close>.
\<close>

record collaborators =
  load_experiment_record :: "string \<Rightarrow> exn + experiment_record"
  compute_fixed_hash :: "string \<Rightarrow> ExpRecordDisplayFields list \<Rightarrow> string"
  truncate_string :: "string \<Rightarrow> int \<Rightarrow> string \<Rightarrow> string"

text \<open>
  Modelled from the spec: the enumeration \<open>ExpStatusOptions\<close> of
  \<open>artemis.experiments.experiment_record\<close>, which is not among the sources; the spec's
  \<open>Status\<close>, one of Started, Finished, Errored and Corrupt. Its members are objects of
  the enumeration, not texts.
\<close>

datatype ExpStatusOptions = STARTED | FINISHED | ERRORED | CORRUPT

text \<open>
  The two kinds of Python value that meet in the test on the status: a text, as every
  getter returns and every cell of a row is, and a member of \<open>ExpStatusOptions\<close>.
  Python's \<open>==\<close> on them is equality of these values, so a text never equals a member.
\<close>

datatype py_value = Py_str string | Py_status ExpStatusOptions

text \<open>
  The part of the outside world the cached fetcher touches: the files below the
  \<open>_ui_cache\<close> directory, by path, and the messages given to \<open>logging.warn\<close>.
  A file either unpickles to a list of strings or fails to load.
\<close>

datatype cache_file = Pickled "string list" | Unreadable

record world =
  files :: "string \<rightharpoonup> cache_file"
  warnings :: "string list"

section \<open>Field getters\<close>

text \<open>\<open>sep.join(xs)\<close> and \<open>s.replace('\n', ';;')\<close> of Python strings.\<close>

fun join :: "string \<Rightarrow> string list \<Rightarrow> string" where
  "join sep [] = []"
| "join sep [x] = x"
| "join sep (x # y # ys) = x @ sep @ join sep (y # ys)"

definition replace_newlines :: "string \<Rightarrow> string" where
  "replace_newlines s = concat (map (\<lambda>c. if c = CHR 0x0A then '';;'' else [c]) s)"

definition show_notes :: "experiment_record \<Rightarrow> exn + string" where
  "show_notes rec =
     (if has_field_notes rec then
        (case get_field_notes rec of
           Inl e \<Rightarrow> Inl e
         | Inr None \<Rightarrow> Inr ''''
         | Inr (Some notes) \<Rightarrow> Inr (replace_newlines (join '';'' notes)))
      else Inr '''')"

text \<open>The table \<open>_exp_record_field_getters\<close>: one getter for each member of the enumeration.\<close>

fun exp_record_field_getters :: "ExpRecordDisplayFields \<Rightarrow> experiment_record \<Rightarrow> exn + string" where
  "exp_record_field_getters RUNS rec = timestamp_text rec"
| "exp_record_field_getters DURATION rec = runtime_text rec"
| "exp_record_field_getters STATUS rec = status_text rec"
| "exp_record_field_getters ARGS_CHANGED rec = invalid_arg_string rec"
| "exp_record_field_getters RESULT_STR rec = oneline_result_string rec"
| "exp_record_field_getters NOTES rec = show_notes rec"

section \<open>The row fetcher \<open>_get_record_rows\<close>\<close>

text \<open>
  With \<open>raise_display_errors\<close> false, the loop appends one value for each header and the
  bare \<open>except\<close> turns any failure of a getter into the placeholder.
\<close>

fun values_catching :: "ExpRecordDisplayFields list \<Rightarrow> experiment_record \<Rightarrow> string list" where
  "values_catching [] rec = []"
| "values_catching (h # hs) rec =
     (case exp_record_field_getters h rec of
        Inl e \<Rightarrow> ''<Display Error>''
      | Inr v \<Rightarrow> v) # values_catching hs rec"

text \<open>
  With \<open>raise_display_errors\<close> true, the list comprehension calls the getters in header
  order and the first exception leaves it.
\<close>

fun values_raising :: "ExpRecordDisplayFields list \<Rightarrow> experiment_record \<Rightarrow> exn + string list" where
  "values_raising [] rec = Inr []"
| "values_raising (h # hs) rec =
     (case exp_record_field_getters h rec of
        Inl e \<Rightarrow> Inl e
      | Inr v \<Rightarrow> (case values_raising hs rec of Inl e \<Rightarrow> Inl e | Inr vs \<Rightarrow> Inr (v # vs)))"

text \<open>The final pass over the values: nothing when \<open>truncate_to\<close> is \<open>None\<close>.\<close>

definition truncate_values :: "collaborators \<Rightarrow> int option \<Rightarrow> string list \<Rightarrow> string list" where
  "truncate_values E truncate_to vals =
     (case truncate_to of
        None \<Rightarrow> vals
      | Some t \<Rightarrow> map (\<lambda>val. truncate_string E val t ''...'') vals)"

definition get_record_rows ::
  "collaborators \<Rightarrow> string \<Rightarrow> ExpRecordDisplayFields list \<Rightarrow> bool \<Rightarrow> int option \<Rightarrow> exn + string list" where
  "get_record_rows E record_id headers raise_display_errors truncate_to =
     (case load_experiment_record E record_id of
        Inl e \<Rightarrow> Inl e
      | Inr rec \<Rightarrow>
          (case (if \<not> raise_display_errors then Inr (values_catching headers rec)
                 else values_raising headers rec) of
             Inl e \<Rightarrow> Inl e
           | Inr vals \<Rightarrow> Inr (truncate_values E truncate_to vals)))"

section \<open>The cached row fetcher \<open>_get_record_rows_cached\<close>\<close>

text \<open>
  The path of the cache file: \<open>os.path.join('_ui_cache', cache_key)\<close> below the data
  directory, with \<open>cache_key = compute_fixed_hash(record_id, headers)\<close>.
\<close>

definition cache_path :: "collaborators \<Rightarrow> string \<Rightarrow> ExpRecordDisplayFields list \<Rightarrow> string" where
  "cache_path E record_id headers = ''_ui_cache/'' @ compute_fixed_hash E record_id headers"

definition load_warning :: "string \<Rightarrow> string" where
  "load_warning record_id = ''Failed to load cached record info: '' @ record_id"

text \<open>
  The part after the cache lookup: compute the row for \<open>headers + [STATUS]\<close>, split off
  the status, and write the cache file unless \<open>status == ExpStatusOptions.STARTED\<close>, the
  status being the text of the last cell. The file receives \<open>info[:-1]\<close>, the caller
  receives \<open>info\<close>. Writing the file is taken to succeed.
\<close>

definition compute_and_store ::
  "collaborators \<Rightarrow> string \<Rightarrow> ExpRecordDisplayFields list \<Rightarrow> bool \<Rightarrow> int option \<Rightarrow> world
     \<Rightarrow> (exn + string list) \<times> world" where
  "compute_and_store E record_id headers raise_display_errors truncate_to w =
     (case get_record_rows E record_id (headers @ [STATUS]) raise_display_errors truncate_to of
        Inl e \<Rightarrow> (Inl e, w)
      | Inr info_plus_status \<Rightarrow>
          (if info_plus_status = [] then (Inl IndexError, w)
           else
             (let info = butlast info_plus_status;
                  status = last info_plus_status
              in if Py_str status = Py_status STARTED then (Inr info, w)
                 else (Inr info,
                       w\<lparr>files := (files w)(cache_path E record_id headers \<mapsto> Pickled (butlast info))\<rparr>))))"

definition get_record_rows_cached ::
  "collaborators \<Rightarrow> string \<Rightarrow> ExpRecordDisplayFields list \<Rightarrow> bool \<Rightarrow> int option \<Rightarrow> world
     \<Rightarrow> (exn + string list) \<times> world" where
  "get_record_rows_cached E record_id headers raise_display_errors truncate_to w =
     (case files w (cache_path E record_id headers) of
        Some (Pickled info) \<Rightarrow> (Inr info, w)
      | Some Unreadable \<Rightarrow>
          compute_and_store E record_id headers raise_display_errors truncate_to
            (w\<lparr>warnings := warnings w @ [load_warning record_id]\<rparr>)
      | None \<Rightarrow> compute_and_store E record_id headers raise_display_errors truncate_to w)"

section \<open>The command dispatcher of \<open>ExperimentBrowser.launch\<close>\<close>

text \<open>
  The keys of \<open>func_dict\<close>, in the order the source writes them. The dictionary is a
  plain Python 2 \<open>dict\<close>, so the order \<open>func_dict.keys()\<close> lists them in is not fixed by
  the source: the dispatcher below takes that list as an argument.
\<close>

definition func_dict_keys :: "string list" where
  "func_dict_keys =
     [''run'', ''test'', ''show'', ''call'', ''selectexp'', ''selectrec'', ''allruns'', ''view'',
      ''h'', ''filter'', ''explist'', ''sidebyside'', ''argtable'', ''compare'', ''delete'',
      ''errortrace'', ''q'', ''records'', ''pull'']"

text \<open>\<open>s.split(' ')\<close>: every single space separates, so the result is never empty.\<close>

fun split_on :: "char \<Rightarrow> string \<Rightarrow> string list" where
  "split_on sep [] = [[]]"
| "split_on sep (c # cs) =
     (if c = sep then [] # split_on sep cs
      else (case split_on sep cs of
              [] \<Rightarrow> [[c]]
            | w # ws \<Rightarrow> (c # w) # ws))"

text \<open>
  Modelled from the spec: \<open>levenshtein_distance\<close> of \<open>artemis.general.mymath\<close>, which is
  not among the sources. The spec calls it the edit distance between the typed token and
  a command name. It is computed row by row: \<open>next_row\<close> fills the row of the character
  \<open>c2\<close> from the row before it, a cell being the cell diagonally before it when the two
  characters agree and one more than the least of its three neighbours otherwise
  (substitution, deletion, insertion).
\<close>

fun next_row :: "char \<Rightarrow> string \<Rightarrow> nat list \<Rightarrow> nat \<Rightarrow> nat list" where
  "next_row c2 (c1 # s1) (d0 # d1 # ds) left =
     (let v = (if c1 = c2 then d0 else 1 + min d0 (min d1 left))
      in v # next_row c2 s1 (d1 # ds) v)"
| "next_row c2 s1 ds left = []"

fun distance_rows :: "string \<Rightarrow> string \<Rightarrow> nat \<Rightarrow> nat list \<Rightarrow> nat list" where
  "distance_rows s1 [] i2 distances = distances"
| "distance_rows s1 (c2 # s2) i2 distances =
     distance_rows s1 s2 (Suc i2) (Suc i2 # next_row c2 s1 distances (Suc i2))"

definition levenshtein_distance :: "string \<Rightarrow> string \<Rightarrow> nat" where
  "levenshtein_distance a b =
     (let s1 = (if length a > length b then b else a);
          s2 = (if length a > length b then a else b)
      in last (distance_rows s1 s2 0 [0..<Suc (length s1)]))"

text \<open>\<open>xs.index(v)\<close> for a value that occurs in \<open>xs\<close>: the first position holding it.\<close>

fun index_of :: "'a list \<Rightarrow> 'a \<Rightarrow> nat" where
  "index_of [] v = 0"
| "index_of (x # xs) v = (if x = v then 0 else Suc (index_of xs v))"

text \<open>
  The branch for an unrecognised command: the distances to all keys, the least of them,
  the first key at that distance, and the suggestion, which is empty when the least
  distance exceeds 2. \<open>func_dict\<close> is never empty, so \<open>min\<close> has an argument.
\<close>

definition closest_command :: "string list \<Rightarrow> string \<Rightarrow> string" where
  "closest_command keys cmd =
     (let edit_distances = map (levenshtein_distance cmd) keys;
          min_distance = min_list edit_distances
      in keys ! index_of edit_distances min_distance)"

definition did_you_mean :: "string \<Rightarrow> string" where
  "did_you_mean closest = '' Did you mean '' @ [CHR 0x22] @ closest @ [CHR 0x22] @ ''?.  ''"

definition suggestion :: "string list \<Rightarrow> string \<Rightarrow> string" where
  "suggestion keys cmd =
     (let edit_distances = map (levenshtein_distance cmd) keys;
          min_distance = min_list edit_distances;
          closest = keys ! index_of edit_distances min_distance
      in if min_distance \<le> 2 then did_you_mean closest else '''')"

definition unrecognised_prompt :: "string list \<Rightarrow> string \<Rightarrow> string" where
  "unrecognised_prompt keys cmd =
     ''Unrecognised command: '' @ [CHR 0x22] @ cmd @ [CHR 0x22] @ ''. '' @ suggestion keys cmd
       @ ''Type '' @ [CHR 0x22] @ ''h'' @ [CHR 0x22] @ '' for help or Enter to continue. >''"

text \<open>
  What one pass of the loop does with the line it read: go round again, call the handler
  registered for the command, call \<open>self.run\<close> for a numeric shorthand, or ask the user
  with the prompt for an unrecognised command.
\<close>

datatype action =
    Continue
  | Call_handler string "string list"
  | Call_run string "string list"
  | Ask_unrecognised string

text \<open>
  \<open>interpret_numbers\<close> comes from another module and is a parameter: it returns
  \<open>None\<close> for a token that is not numeric, a list of numbers for one that is, or raises.
\<close>

definition dispatch ::
  "(string \<Rightarrow> exn + int list option) \<Rightarrow> string list \<Rightarrow> string \<Rightarrow> exn + action" where
  "dispatch interpret_numbers keys user_input =
     (case split_on CHR '' '' user_input of
        [] \<Rightarrow> Inr Continue
      | cmd # args \<Rightarrow>
          if cmd = '''' then Inr Continue
          else if cmd \<in> set keys then Inr (Call_handler cmd args)
          else
            (case interpret_numbers cmd of
               Inl e \<Rightarrow> Inl e
             | Inr (Some numbers) \<Rightarrow>
                 Inr (Call_run cmd
                        (if \<not> list_ex (\<lambda>x. x \<in> set args) [''-s'', ''-e'', ''-p'']
                         then args @ [''-e''] else args))
             | Inr None \<Rightarrow>
                 if cmd = ''r'' then Inr Continue
                 else Inr (Ask_unrecognised (unrecognised_prompt keys cmd))))"

section \<open>The delete handlers\<close>

text \<open>
  What the handlers see of the outside: the lines \<open>raw_input\<close> will return, the ids of the
  records on disk, and the arguments of the calls of \<open>clear_experiment_records\<close> made so far.
  What the handlers print is left out.
\<close>

record session =
  stdin :: "string list"
  record_store :: "string list"
  clear_calls :: "string list list"

text \<open>
  Modelled from the spec: \<open>clear_experiment_records\<close> of
  \<open>artemis.experiments.experiment_record\<close>, which is not among the sources; the spec's
  "deletion service \<open>delete(RecordId[]) -> void\<close>". It removes the records with the given ids.
\<close>

definition clear_experiment_records :: "string list \<Rightarrow> session \<Rightarrow> session" where
  "clear_experiment_records ids s =
     s\<lparr>record_store := filter (\<lambda>r. r \<notin> set ids) (record_store s),
       clear_calls := clear_calls s @ [ids]\<rparr>"

text \<open>\<open>raw_input\<close> returns the next line, and raises \<open>EOFError\<close> when there is none.\<close>

definition raw_input :: "session \<Rightarrow> (exn + string) \<times> session" where
  "raw_input s =
     (case stdin s of
        [] \<Rightarrow> (Inl EOFError, s)
      | line # rest \<Rightarrow> (Inr line, s\<lparr>stdin := rest\<rparr>))"

text \<open>
  \<open>_warn_with_prompt\<close>: with \<open>use_prompt\<close> it reads a line, quits on \<open>q\<close> and returns the
  line otherwise; without, it returns \<open>None\<close>.
\<close>

definition warn_with_prompt :: "bool \<Rightarrow> session \<Rightarrow> (exn + string option) \<times> session" where
  "warn_with_prompt use_prompt s =
     (if use_prompt then
        (case raw_input s of
           (Inl e, s') \<Rightarrow> (Inl e, s')
         | (Inr out, s') \<Rightarrow> if out = ''q'' then (Inl SystemExit, s') else (Inr (Some out), s'))
      else (Inr None, s))"

text \<open>\<open>str.lower()\<close> on ASCII text.\<close>

definition lower_char :: "char \<Rightarrow> char" where
  "lower_char c =
     (case map_of (zip ''ABCDEFGHIJKLMNOPQRSTUVWXYZ'' ''abcdefghijklmnopqrstuvwxyz'') c of
        None \<Rightarrow> c
      | Some l \<Rightarrow> l)"

definition lower :: "string \<Rightarrow> string" where
  "lower s = map lower_char s"

text \<open>
  \<open>ExperimentBrowser.delete\<close>. The selection \<open>select_experiment_records\<close> is a parameter,
  here already giving the ids of the selected records.
\<close>

definition experiment_browser_delete ::
  "(string \<Rightarrow> exn + string list) \<Rightarrow> bool \<Rightarrow> string \<Rightarrow> session \<Rightarrow> (exn + unit) \<times> session" where
  "experiment_browser_delete select close_after user_range s =
     (case select user_range of
        Inl e \<Rightarrow> (Inl e, s)
      | Inr records \<Rightarrow>
          (case raw_input s of
             (Inl e, s1) \<Rightarrow> (Inl e, s1)
           | (Inr response, s1) \<Rightarrow>
               if lower response = ''yes'' then (Inr (), clear_experiment_records records s1)
               else
                 (case warn_with_prompt (\<not> close_after) s1 of
                    (Inl e, s2) \<Rightarrow> (Inl e, s2)
                  | (Inr out, s2) \<Rightarrow> (Inr (), s2))))"

text \<open>
  \<open>ExperimentRecordBrowser.delete\<close>. It ends by reloading \<open>self.record_ids\<close>, which is the
  value returned here; \<open>get_all_record_ids\<close>, with the browser's names and filters, is a
  parameter that lists the records on disk.
\<close>

definition experiment_record_browser_delete ::
  "(string \<Rightarrow> exn + string list) \<Rightarrow> (string list \<Rightarrow> string list) \<Rightarrow> string \<Rightarrow> session
     \<Rightarrow> (exn + string list) \<times> session" where
  "experiment_record_browser_delete select get_all_record_ids user_range s =
     (case select user_range of
        Inl e \<Rightarrow> (Inl e, s)
      | Inr ids \<Rightarrow>
          (case raw_input s of
             (Inl e, s1) \<Rightarrow> (Inl e, s1)
           | (Inr conf, s1) \<Rightarrow>
               if conf = ''yes'' then
                 (let s2 = clear_experiment_records ids s1
                  in (Inr (get_all_record_ids (record_store s2)), s2))
               else
                 (case warn_with_prompt True s1 of
                    (Inl e, s2) \<Rightarrow> (Inl e, s2)
                  | (Inr out, s2) \<Rightarrow> (Inr (get_all_record_ids (record_store s2)), s2))))"

section \<open>The nested experiment table of \<open>get_experiment_list_str\<close>\<close>

text \<open>A cell handed to \<open>tabulate\<close>: an index or a text.\<close>

datatype cell = Int_cell nat | Text_cell string

text \<open>
  The inner loop over \<open>enumerate(record_ids)\<close>: one row \<open>['', j] + row_func(record_id, ...)\<close>
  for each record. The row function is \<open>_get_record_rows\<close> or \<open>_get_record_rows_cached\<close>
  with the headers and flags of the browser; it may raise, and it may change the state
  \<open>'w\<close> it is run in (the cache files).
\<close>

fun record_rows_loop ::
  "(string \<Rightarrow> 'w \<Rightarrow> (exn + string list) \<times> 'w) \<Rightarrow> nat \<Rightarrow> string list \<Rightarrow> 'w
     \<Rightarrow> (exn + cell list list) \<times> 'w" where
  "record_rows_loop row_func j [] w = (Inr [], w)"
| "record_rows_loop row_func j (record_id # record_ids) w =
     (case row_func record_id w of
        (Inl e, w1) \<Rightarrow> (Inl e, w1)
      | (Inr vals, w1) \<Rightarrow>
          (case record_rows_loop row_func (Suc j) record_ids w1 of
             (Inl e, w2) \<Rightarrow> (Inl e, w2)
           | (Inr rows, w2) \<Rightarrow>
               (Inr ((Text_cell '''' # Int_cell j # map Text_cell vals) # rows), w2)))"

text \<open>
  The outer loop over \<open>enumerate(exp_record_dict.iteritems())\<close>, the ordered dictionary
  being a list of pairs. It returns \<open>record_rows\<close>, \<open>experiment_rows\<close> and
  \<open>experiment_row_ixs\<close>; \<open>counter\<close> has grown by one for each record when the next
  experiment is reached.
\<close>

fun nested_loop ::
  "(string \<Rightarrow> 'w \<Rightarrow> (exn + string list) \<times> 'w) \<Rightarrow> nat \<Rightarrow> nat \<Rightarrow> (string \<times> string list) list \<Rightarrow> 'w
     \<Rightarrow> (exn + cell list list \<times> cell list list \<times> nat list) \<times> 'w" where
  "nested_loop row_func i counter [] w = (Inr ([], [], []), w)"
| "nested_loop row_func i counter ((exp_id, record_ids) # rest) w =
     (case record_rows_loop row_func 0 record_ids w of
        (Inl e, w1) \<Rightarrow> (Inl e, w1)
      | (Inr rows, w1) \<Rightarrow>
          (case nested_loop row_func (Suc i) (counter + length record_ids) rest w1 of
             (Inl e, w2) \<Rightarrow> (Inl e, w2)
           | (Inr (record_rows, experiment_rows, experiment_row_ixs), w2) \<Rightarrow>
               (Inr (rows @ record_rows,
                     [Int_cell i, Text_cell '''', Text_cell exp_id] # experiment_rows,
                     counter # experiment_row_ixs), w2)))"

text \<open>
  Modelled from the spec: \<open>insert_at\<close> of \<open>artemis.general.should_be_builtins\<close>, which is
  not among the sources. The spec has each line of the second list spliced into the first
  list "at the line offset" given for it: the element of \<open>list2\<close> with index \<open>k\<close> comes
  right before the element of \<open>list1\<close> at position \<open>k\<close>, positions being those of \<open>list1\<close>
  before any insertion, and right after the end when \<open>k\<close> is the length of \<open>list1\<close>.
  \<open>splice\<close> walks along \<open>list1\<close> from position \<open>i\<close> with the pairs of index and element
  still to be placed; an index that is never reached, or lists of different lengths,
  fail.
\<close>

fun splice :: "nat \<Rightarrow> 'a list \<Rightarrow> (nat \<times> 'a) list \<Rightarrow> exn + 'a list" where
  "splice i xs [] = Inr xs"
| "splice i [] ((k, g) # ps) =
     (if k = i then (case splice i [] ps of Inl e \<Rightarrow> Inl e | Inr ys \<Rightarrow> Inr (g # ys))
      else Inl AssertionError)"
| "splice i (x # xs) ((k, g) # ps) =
     (if k = i then (case splice i (x # xs) ps of Inl e \<Rightarrow> Inl e | Inr ys \<Rightarrow> Inr (g # ys))
      else (case splice (Suc i) xs ((k, g) # ps) of Inl e \<Rightarrow> Inl e | Inr ys \<Rightarrow> Inr (x # ys)))"

definition insert_at :: "'a list \<Rightarrow> 'a list \<Rightarrow> nat list \<Rightarrow> exn + 'a list" where
  "insert_at list1 list2 indices =
     (if length list2 \<noteq> length indices then Inl AssertionError
      else splice 0 list1 (zip (sort indices) list2))"

text \<open>
  The nested branch of \<open>get_experiment_list_str\<close>, up to the list \<open>all_rows\<close>. The two
  calls of the library function \<open>tabulate\<close>, with and without headers, are parameters;
  their texts are split into lines, and the first and the last line of the experiment
  table (its borders) are dropped.
\<close>

definition nested_table_rows ::
  "(cell list list \<Rightarrow> string list \<Rightarrow> string) \<Rightarrow> (cell list list \<Rightarrow> string)
     \<Rightarrow> (string \<Rightarrow> 'w \<Rightarrow> (exn + string list) \<times> 'w) \<Rightarrow> string list
     \<Rightarrow> (string \<times> string list) list \<Rightarrow> 'w \<Rightarrow> (exn + string list) \<times> 'w" where
  "nested_table_rows tabulate_headers tabulate_plain row_func header_names exp_record_dict w =
     (case nested_loop row_func 0 2 exp_record_dict w of
        (Inl e, w1) \<Rightarrow> (Inl e, w1)
      | (Inr (record_rows, experiment_rows, experiment_row_ixs), w1) \<Rightarrow>
          (let record_table_rows =
                 split_on (CHR 0x0A) (tabulate_headers record_rows ([''E#'', ''R#''] @ header_names));
               experiment_table_rows =
                 butlast (tl (split_on (CHR 0x0A) (tabulate_plain experiment_rows)))
           in (insert_at record_table_rows experiment_table_rows experiment_row_ixs, w1)))"

definition get_experiment_list_str_nested ::
  "(cell list list \<Rightarrow> string list \<Rightarrow> string) \<Rightarrow> (cell list list \<Rightarrow> string)
     \<Rightarrow> (string \<Rightarrow> 'w \<Rightarrow> (exn + string list) \<times> 'w) \<Rightarrow> string list
     \<Rightarrow> (string \<times> string list) list \<Rightarrow> 'w \<Rightarrow> (exn + string) \<times> 'w" where
  "get_experiment_list_str_nested tabulate_headers tabulate_plain row_func header_names exp_record_dict w =
     (case nested_table_rows tabulate_headers tabulate_plain row_func header_names exp_record_dict w of
        (Inl e, w1) \<Rightarrow> (Inl e, w1)
      | (Inr all_rows, w1) \<Rightarrow> (Inr (join [CHR 0x0A] all_rows), w1))"

text \<open>
  For stating the layout: the number of records of the experiments before the \<open>k\<close>-th, and
  a list cut into consecutive pieces of given lengths.
\<close>

definition records_before :: "(string \<times> string list) list \<Rightarrow> nat \<Rightarrow> nat" where
  "records_before exp_record_dict k = sum_list (map (length \<circ> snd) (take k exp_record_dict))"

fun chunks :: "nat list \<Rightarrow> 'a list \<Rightarrow> 'a list list" where
  "chunks [] xs = []"
| "chunks (n # ns) xs = take n xs # chunks ns (drop n xs)"

text \<open>The running value of \<open>counter\<close> at the start of each experiment, for given numbers
  of records.\<close>

fun starts :: "nat \<Rightarrow> nat list \<Rightarrow> nat list" where
  "starts c [] = []"
| "starts c (n # ns) = c # starts (c + n) ns"

section \<open>A sample environment\<close>

text \<open>
  Modelled from the spec: \<open>truncate_string\<close> of \<open>artemis.general.display\<close>, which is not among
  the sources. The spec has it "truncate any value exceeding the limit by cutting and
  appending an ellipsis marker"; the sample cuts so that the result with the marker has the
  length of the limit. It only instantiates the parameter in the concrete environment below.
\<close>

definition sample_truncate_string :: "string \<Rightarrow> int \<Rightarrow> string \<Rightarrow> string" where
  "sample_truncate_string s truncation message =
     (if int (length s) > truncation
      then take (nat (truncation - int (length message))) s @ message
      else s)"

text \<open>Three records: one that ran to completion, one still running, one whose runtime and
  result getters fail.\<close>

definition finished_record :: experiment_record where
  "finished_record =
     \<lparr>timestamp_text = Inr ''2017.03.01T12:00:00'', runtime_text = Inr ''3.2s'',
      status_text = Inr ''Ran Succesfully'', invalid_arg_string = Inr ''<No Change>'',
      oneline_result_string = Inr ''0.93'', has_field_notes = True,
      get_field_notes = Inr (Some [''first'', ''second''])\<rparr>"

definition running_record :: experiment_record where
  "running_record =
     \<lparr>timestamp_text = Inr ''2017.03.02T09:30:00'', runtime_text = Inr '''',
      status_text = Inr ''Running (or Killed)'', invalid_arg_string = Inr ''<No Change>'',
      oneline_result_string = Inr ''<No result has been saved>'', has_field_notes = False,
      get_field_notes = Inr None\<rparr>"

definition broken_record :: experiment_record where
  "broken_record =
     \<lparr>timestamp_text = Inr ''2017.03.03T10:00:00'', runtime_text = Inl (Raised ''no runtime''),
      status_text = Inr ''Error'', invalid_arg_string = Inr ''<No Change>'',
      oneline_result_string = Inl (Raised ''result file missing''), has_field_notes = False,
      get_field_notes = Inr None\<rparr>"

text \<open>The \<open>value\<close> of each member of the enumeration: the column titles.\<close>

fun field_value :: "ExpRecordDisplayFields \<Rightarrow> string" where
  "field_value RUNS = ''All Runs''"
| "field_value DURATION = ''Duration''"
| "field_value STATUS = ''Status''"
| "field_value ARGS_CHANGED = ''Args Changed?''"
| "field_value RESULT_STR = ''Result''"
| "field_value NOTES = ''Notes''"

definition sample_env :: collaborators where
  "sample_env =
     \<lparr>load_experiment_record =
        (\<lambda>rid. if rid = ''demo.1'' then Inr finished_record
               else if rid = ''demo.2'' then Inr running_record
               else if rid = ''demo.3'' then Inr broken_record
               else Inl (Raised ''no such record'')),
      compute_fixed_hash = (\<lambda>rid hs. rid @ '':'' @ join '','' (map field_value hs)),
      truncate_string = sample_truncate_string\<rparr>"

definition empty_world :: world where
  "empty_world = \<lparr>files = Map.empty, warnings = []\<rparr>"


definition unreadable_world :: world where
  "unreadable_world =
     \<lparr>files = [cache_path sample_env ''demo.1'' [RESULT_STR] \<mapsto> Unreadable], warnings = []\<rparr>"

text \<open>
  A stand-in for \<open>interpret_numbers\<close> that knows plain decimal numbers only: such a token
  is the list of that one number, anything else is not numeric.
\<close>

definition sample_interpret_numbers :: "string \<Rightarrow> exn + int list option" where
  "sample_interpret_numbers s =
     (if s \<noteq> [] \<and> list_all (\<lambda>c. c \<in> set ''0123456789'') s
      then Inr (Some [foldl (\<lambda>n c. 10 * n + (of_char c - 48)) 0 s])
      else Inr None)"

text \<open>A session with two records on disk and a selection that understands \<open>all\<close> only.\<close>

definition sample_select :: "string \<Rightarrow> exn + string list" where
  "sample_select user_range =
     (if user_range = ''all'' then Inr [''demo.1'', ''demo.2'']
      else Inl (Raised ''RecordSelectionError''))"

definition sample_session :: "string list \<Rightarrow> session" where
  "sample_session lines =
     \<lparr>stdin = lines, record_store = [''demo.1'', ''demo.2''], clear_calls = []\<rparr>"

text \<open>
  Stand-ins for the two calls of \<open>tabulate\<close>: a line of titles and a rule, then one line
  for each row; without titles, a rule before and after the rows, and the empty text for
  no rows. Cells are joined by two spaces.
\<close>

fun cell_text :: "cell \<Rightarrow> string" where
  "cell_text (Int_cell n) = (if n < 10 then [''0123456789'' ! n] else ''..'')"
| "cell_text (Text_cell s) = s"

definition sample_tabulate_headers :: "cell list list \<Rightarrow> string list \<Rightarrow> string" where
  "sample_tabulate_headers rows titles =
     join [CHR 0x0A] (join ''  '' titles # ''----'' # map (\<lambda>row. join ''  '' (map cell_text row)) rows)"

definition sample_tabulate_plain :: "cell list list \<Rightarrow> string" where
  "sample_tabulate_plain rows =
     (if rows = [] then ''''
      else join [CHR 0x0A] (''----'' # map (\<lambda>row. join ''  '' (map cell_text row)) rows @ [''----'']))"

text \<open>The uncached row function for the status column, and three experiments, the second
  without records.\<close>

definition sample_row_func :: "string \<Rightarrow> unit \<Rightarrow> (exn + string list) \<times> unit" where
  "sample_row_func record_id w = (get_record_rows sample_env record_id [STATUS] False None, w)"

definition sample_exp_record_dict :: "(string \<times> string list) list" where
  "sample_exp_record_dict =
     [(''exp_a'', [''demo.1'', ''demo.2'']), (''exp_b'', []), (''exp_c'', [''demo.3''])]"

section \<open>Properties of the row fetcher\<close>

lemma values_catching_map:
  "values_catching hs rec =
     map (\<lambda>h. case exp_record_field_getters h rec of Inl e \<Rightarrow> ''<Display Error>'' | Inr v \<Rightarrow> v) hs"
  by (induction hs) simp_all

lemma length_values_catching: "length (values_catching hs rec) = length hs"
  by (induction hs) simp_all

lemma values_raising_length: "values_raising hs rec = Inr vs \<Longrightarrow> length vs = length hs"
  by (induction hs arbitrary: vs) (auto split: sum.splits)

lemma length_truncate_values: "length (truncate_values E t vs) = length vs"
  by (simp add: truncate_values_def split: option.splits)

lemma get_record_rows_length:
  "get_record_rows E rid hs r t = Inr vs \<Longrightarrow> length vs = length hs"
  by (auto simp: get_record_rows_def length_truncate_values length_values_catching
      dest: values_raising_length split: sum.splits if_splits)

lemma values_raising_first_failure:
  "i < length hs \<Longrightarrow> exp_record_field_getters (hs ! i) rec = Inl e \<Longrightarrow>
   (\<forall>j<i. \<exists>v. exp_record_field_getters (hs ! j) rec = Inr v) \<Longrightarrow>
   values_raising hs rec = Inl e"
proof (induction hs arbitrary: i)
  case Nil
  then show ?case by simp
next
  case (Cons h hs)
  show ?case
  proof (cases i)
    case 0
    with Cons.prems show ?thesis by simp
  next
    case (Suc k)
    from Cons.prems(3) Suc have "\<exists>v. exp_record_field_getters h rec = Inr v"
      by (metis nth_Cons_0 zero_less_Suc)
    then obtain v where v: "exp_record_field_getters h rec = Inr v" ..
    have "values_raising hs rec = Inl e"
    proof (rule Cons.IH)
      show "k < length hs" using Cons.prems(1) Suc by simp
      show "exp_record_field_getters (hs ! k) rec = Inl e" using Cons.prems(2) Suc by simp
      show "\<forall>j<k. \<exists>v. exp_record_field_getters (hs ! j) rec = Inr v"
      proof (intro allI impI)
        fix j assume "j < k"
        then have "Suc j < i" using Suc by simp
        with Cons.prems(3) have "\<exists>v. exp_record_field_getters ((h # hs) ! Suc j) rec = Inr v" by blast
        then show "\<exists>v. exp_record_field_getters (hs ! j) rec = Inr v" by simp
      qed
    qed
    with v show ?thesis by simp
  qed
qed

lemma values_catching_append:
  "values_catching (hs @ hs') rec = values_catching hs rec @ values_catching hs' rec"
  by (induction hs) simp_all

lemma values_raising_append_Inr:
  "values_raising (hs @ hs') rec = Inr vs \<Longrightarrow>
   \<exists>as bs. values_raising hs rec = Inr as \<and> values_raising hs' rec = Inr bs \<and> vs = as @ bs"
  by (induction hs arbitrary: vs) (auto split: sum.splits)

lemma truncate_values_append:
  "truncate_values E t (as @ bs) = truncate_values E t as @ truncate_values E t bs"
  by (simp add: truncate_values_def split: option.splits)

lemma get_record_rows_prefix:
  assumes "get_record_rows E rid (hs @ [h]) r t = Inr ips"
  shows "get_record_rows E rid hs r t = Inr (butlast ips)"
proof (cases "load_experiment_record E rid")
  case (Inl e)
  with assms show ?thesis by (simp add: get_record_rows_def)
next
  case (Inr rec)
  show ?thesis
  proof (cases r)
    case False
    with assms Inr have "ips = truncate_values E t (values_catching hs rec) @ truncate_values E t (values_catching [h] rec)"
      by (simp add: get_record_rows_def values_catching_append truncate_values_append del: values_catching.simps)
    moreover have "length (truncate_values E t (values_catching [h] rec)) = 1"
      by (simp add: length_truncate_values)
    then obtain x where "truncate_values E t (values_catching [h] rec) = [x]"
      by (cases "truncate_values E t (values_catching [h] rec)") auto
    ultimately show ?thesis using False Inr by (simp add: get_record_rows_def)
  next
    case True
    with assms Inr obtain vs where vs: "values_raising (hs @ [h]) rec = Inr vs"
      and ips: "ips = truncate_values E t vs"
      by (auto simp: get_record_rows_def split: sum.splits)
    from values_raising_append_Inr [OF vs] obtain as bs where
      as: "values_raising hs rec = Inr as" and bs: "values_raising [h] rec = Inr bs" and e: "vs = as @ bs"
      by blast
    from values_raising_length [OF bs] obtain x where "bs = [x]"
      by (cases bs) auto
    then have "length (truncate_values E t bs) = 1" by (simp add: length_truncate_values)
    then obtain y where "truncate_values E t bs = [y]"
      by (cases "truncate_values E t bs") auto
    with ips e have "butlast ips = truncate_values E t as"
      by (simp add: truncate_values_append)
    with True Inr as show ?thesis by (simp add: get_record_rows_def)
  qed
qed

lemmas sample_defs = sample_env_def finished_record_def running_record_def broken_record_def
  sample_truncate_string_def empty_world_def unreadable_world_def get_record_rows_cached_def
  compute_and_store_def get_record_rows_def truncate_values_def cache_path_def show_notes_def
  replace_newlines_def load_warning_def

text \<open>
  Claim C4. With \<open>raise_display_errors\<close> false and a record that loads, the row holds, for
  every header in order, the placeholder \<open><Display Error>\<close> where the getter of that
  header fails and the getter's value where it succeeds; the final truncation pass then
  runs over all cells alike (and is absent when \<open>truncate_to\<close> is \<open>None\<close>). With
  \<open>raise_display_errors\<close> true, the error of the first failing getter in header order is
  what the fetcher returns, and no row.
\<close>

theorem get_record_rows_failure_policy:
  assumes "load_experiment_record E record_id = Inr rec"
  shows "get_record_rows E record_id headers False truncate_to =
           Inr (truncate_values E truncate_to
                  (map (\<lambda>h. case exp_record_field_getters h rec of
                               Inl e \<Rightarrow> ''<Display Error>'' | Inr v \<Rightarrow> v) headers))
       \<and> get_record_rows E record_id headers False None =
           Inr (map (\<lambda>h. case exp_record_field_getters h rec of
                            Inl e \<Rightarrow> ''<Display Error>'' | Inr v \<Rightarrow> v) headers)
       \<and> (\<forall>i e. i < length headers \<and> exp_record_field_getters (headers ! i) rec = Inl e
                 \<and> (\<forall>j<i. \<exists>v. exp_record_field_getters (headers ! j) rec = Inr v)
              \<longrightarrow> get_record_rows E record_id headers True truncate_to = Inl e)"
proof (intro conjI allI impI)
  show "get_record_rows E record_id headers False truncate_to =
           Inr (truncate_values E truncate_to
                  (map (\<lambda>h. case exp_record_field_getters h rec of
                               Inl e \<Rightarrow> ''<Display Error>'' | Inr v \<Rightarrow> v) headers))"
    using assms by (simp add: get_record_rows_def values_catching_map)
  show "get_record_rows E record_id headers False None =
           Inr (map (\<lambda>h. case exp_record_field_getters h rec of
                            Inl e \<Rightarrow> ''<Display Error>'' | Inr v \<Rightarrow> v) headers)"
    using assms by (simp add: get_record_rows_def values_catching_map truncate_values_def)
next
  fix i e
  assume h: "i < length headers \<and> exp_record_field_getters (headers ! i) rec = Inl e
                 \<and> (\<forall>j<i. \<exists>v. exp_record_field_getters (headers ! j) rec = Inr v)"
  then have "values_raising headers rec = Inl e"
    using values_raising_first_failure [of i headers rec e] by blast
  with assms show "get_record_rows E record_id headers True truncate_to = Inl e"
    by (simp add: get_record_rows_def)
qed

theorem get_record_rows_failure_policy_witness:
  "load_experiment_record sample_env ''demo.3'' = Inr broken_record
   \<and> get_record_rows sample_env ''demo.3'' [RUNS, DURATION, RESULT_STR, STATUS] False (Some 100) =
       Inr [''2017.03.03T10:00:00'', ''<Display Error>'', ''<Display Error>'', ''Error'']
   \<and> get_record_rows sample_env ''demo.3'' [RUNS, DURATION, RESULT_STR, STATUS] True (Some 100) =
       Inl (Raised ''no runtime'')"
proof -
  have h: "load_experiment_record sample_env ''demo.3'' = Inr broken_record"
    by (simp add: sample_env_def)
  note T = get_record_rows_failure_policy [OF h, of "[RUNS, DURATION, RESULT_STR, STATUS]" "Some 100"]
  from T have a: "get_record_rows sample_env ''demo.3'' [RUNS, DURATION, RESULT_STR, STATUS] False (Some 100) =
       Inr [''2017.03.03T10:00:00'', ''<Display Error>'', ''<Display Error>'', ''Error'']"
    by (simp add: truncate_values_def sample_env_def sample_truncate_string_def broken_record_def)
  from T have "1 < length [RUNS, DURATION, RESULT_STR, STATUS]
        \<and> exp_record_field_getters ([RUNS, DURATION, RESULT_STR, STATUS] ! 1) broken_record = Inl (Raised ''no runtime'')
        \<and> (\<forall>j<1. \<exists>v. exp_record_field_getters ([RUNS, DURATION, RESULT_STR, STATUS] ! j) broken_record = Inr v)
      \<longrightarrow> get_record_rows sample_env ''demo.3'' [RUNS, DURATION, RESULT_STR, STATUS] True (Some 100) = Inl (Raised ''no runtime'')"
    by blast
  then have b: "get_record_rows sample_env ''demo.3'' [RUNS, DURATION, RESULT_STR, STATUS] True (Some 100) = Inl (Raised ''no runtime'')"
    by (simp add: broken_record_def)
  from h a b show ?thesis by blast
qed

section \<open>Properties of the cached row fetcher\<close>

lemma compute_and_store_warnings:
  "warnings (snd (compute_and_store E rid hs r t w)) = warnings w"
  by (simp add: compute_and_store_def Let_def split: sum.splits)

lemma compute_and_store_fst:
  "fst (compute_and_store E rid hs r t w) =
     (case get_record_rows E rid (hs @ [STATUS]) r t of Inl e \<Rightarrow> Inl e | Inr ips \<Rightarrow> Inr (butlast ips))"
proof (cases "get_record_rows E rid (hs @ [STATUS]) r t")
  case (Inl e)
  then show ?thesis by (simp add: compute_and_store_def)
next
  case (Inr ips)
  from get_record_rows_length [OF Inr] have "ips \<noteq> []" by auto
  with Inr show ?thesis by (simp add: compute_and_store_def Let_def)
qed

lemma compute_and_store_files:
  "files (snd (compute_and_store E rid hs r t w)) =
     (case get_record_rows E rid (hs @ [STATUS]) r t of
        Inl e \<Rightarrow> files w
      | Inr ips \<Rightarrow> (files w)(cache_path E rid hs \<mapsto> Pickled (butlast (butlast ips))))"
proof (cases "get_record_rows E rid (hs @ [STATUS]) r t")
  case (Inl e)
  then show ?thesis by (simp add: compute_and_store_def)
next
  case (Inr ips)
  from get_record_rows_length [OF Inr] have "ips \<noteq> []" by auto
  with Inr show ?thesis by (simp add: compute_and_store_def Let_def)
qed

text \<open>
  Whatever the status text of the record, a fetch that finds no cache file and computes a
  row writes the file: the test against \<open>ExpStatusOptions.STARTED\<close> never holds for a text.
\<close>

lemma cached_miss_always_writes:
  assumes "files w (cache_path E rid hs) = None"
    and "get_record_rows E rid (hs @ [STATUS]) r t = Inr ips"
  shows "files (snd (get_record_rows_cached E rid hs r t w)) =
           (files w)(cache_path E rid hs \<mapsto> Pickled (butlast (butlast ips)))"
  using assms by (simp add: get_record_rows_cached_def compute_and_store_files)

text \<open>
  Claim C3, evaluated on the code. The record \<open>demo.2\<close> is still running: its status text
  is the one of a started record. The test \<open>status == ExpStatusOptions.STARTED\<close> compares
  that text with a member of the enumeration and fails, so the first fetch writes a cache
  file for the record. The second fetch is served from that file and computes nothing: it
  returns the content of the file, while the fresh row has two cells.
\<close>

theorem started_record_is_cached:
  "load_experiment_record sample_env ''demo.2'' = Inr running_record
   \<and> status_text running_record = Inr ''Running (or Killed)''
   \<and> files empty_world (cache_path sample_env ''demo.2'' [RUNS, RESULT_STR]) = None
   \<and> fst (get_record_rows_cached sample_env ''demo.2'' [RUNS, RESULT_STR] False (Some 100) empty_world) =
       Inr [''2017.03.02T09:30:00'', ''<No result has been saved>'']
   \<and> files (snd (get_record_rows_cached sample_env ''demo.2'' [RUNS, RESULT_STR] False (Some 100) empty_world))
         (cache_path sample_env ''demo.2'' [RUNS, RESULT_STR]) = Some (Pickled [''2017.03.02T09:30:00''])
   \<and> fst (get_record_rows_cached sample_env ''demo.2'' [RUNS, RESULT_STR] False (Some 100)
          (snd (get_record_rows_cached sample_env ''demo.2'' [RUNS, RESULT_STR] False (Some 100) empty_world))) =
       Inr [''2017.03.02T09:30:00'']
   \<and> get_record_rows sample_env ''demo.2'' [RUNS, RESULT_STR] False (Some 100) =
       Inr [''2017.03.02T09:30:00'', ''<No result has been saved>'']"
  by (simp add: sample_defs)

lemma cached_miss_row_length:
  assumes "\<forall>info. files w (cache_path E rid hs) \<noteq> Some (Pickled info)"
    and "fst (get_record_rows_cached E rid hs r t w) = Inr row"
  shows "length row = length hs"
proof -
  have "fst (get_record_rows_cached E rid hs r t w) =
          (case get_record_rows E rid (hs @ [STATUS]) r t of Inl e \<Rightarrow> Inl e | Inr ips \<Rightarrow> Inr (butlast ips))"
    using assms(1)
    by (simp add: get_record_rows_cached_def compute_and_store_fst split: option.splits cache_file.splits)
  with assms(2) obtain ips where "get_record_rows E rid (hs @ [STATUS]) r t = Inr ips" and "row = butlast ips"
    by (auto split: sum.splits)
  with get_record_rows_length [of E rid "hs @ [STATUS]" r t ips] show ?thesis by simp
qed

text \<open>
  Claim C5. When the cache file of the key exists and cannot be loaded, the fetcher logs
  one warning and goes on as on a miss: it returns what the call without the file returns,
  namely the outcome of computing the row for \<open>headers + [STATUS]\<close> without its last cell,
  and it writes the cache file exactly when the miss writes it. An error can only be the one
  of that computation, never one of the failed read.
\<close>

theorem unreadable_cache_file_is_a_miss:
  assumes "files w (cache_path E record_id headers) = Some Unreadable"
  shows "let path = cache_path E record_id headers;
             fetch = get_record_rows_cached E record_id headers raise_display_errors truncate_to;
             miss = fetch (w\<lparr>files := (files w)(path := None)\<rparr>)
         in fst (fetch w) = fst miss
          \<and> fst (fetch w) =
              (case get_record_rows E record_id (headers @ [STATUS]) raise_display_errors truncate_to of
                 Inl e \<Rightarrow> Inl e | Inr info_plus_status \<Rightarrow> Inr (butlast info_plus_status))
          \<and> warnings (snd (fetch w)) = warnings w @ [load_warning record_id]
          \<and> warnings (snd miss) = warnings w
          \<and> files (snd (fetch w)) =
              (case files (snd miss) path of
                 None \<Rightarrow> files w
               | Some written \<Rightarrow> (files w)(path \<mapsto> written))"
proof -
  let ?path = "cache_path E record_id headers"
  let ?fetch = "get_record_rows_cached E record_id headers raise_display_errors truncate_to"
  let ?w0 = "w\<lparr>files := (files w)(?path := None)\<rparr>"
  let ?w1 = "w\<lparr>warnings := warnings w @ [load_warning record_id]\<rparr>"
  have hit: "?fetch w = compute_and_store E record_id headers raise_display_errors truncate_to ?w1"
    using assms by (simp add: get_record_rows_cached_def)
  have miss: "?fetch ?w0 = compute_and_store E record_id headers raise_display_errors truncate_to ?w0"
    by (simp add: get_record_rows_cached_def)
  have 1: "fst (?fetch w) = fst (?fetch ?w0)"
    by (simp only: hit miss compute_and_store_fst)
  have 2: "fst (?fetch w) =
              (case get_record_rows E record_id (headers @ [STATUS]) raise_display_errors truncate_to of
                 Inl e \<Rightarrow> Inl e | Inr info_plus_status \<Rightarrow> Inr (butlast info_plus_status))"
    by (simp only: hit compute_and_store_fst)
  have 3: "warnings (snd (?fetch w)) = warnings w @ [load_warning record_id]"
    by (simp add: hit compute_and_store_warnings)
  have 4: "warnings (snd (?fetch ?w0)) = warnings w"
    by (simp add: miss compute_and_store_warnings)
  have 5: "files (snd (?fetch w)) =
              (case files (snd (?fetch ?w0)) ?path of
                 None \<Rightarrow> files w
               | Some written \<Rightarrow> (files w)(?path \<mapsto> written))"
    by (simp add: hit miss compute_and_store_files split: sum.splits)
  from 1 2 3 4 5 show ?thesis by (simp only: Let_def)
qed

theorem unreadable_cache_file_is_a_miss_witness:
  "files unreadable_world (cache_path sample_env ''demo.1'' [RESULT_STR]) = Some Unreadable
   \<and> fst (get_record_rows_cached sample_env ''demo.1'' [RESULT_STR] False None unreadable_world) = Inr [''0.93'']
   \<and> warnings (snd (get_record_rows_cached sample_env ''demo.1'' [RESULT_STR] False None unreadable_world)) =
       [''Failed to load cached record info: demo.1'']"
proof -
  have h: "files unreadable_world (cache_path sample_env ''demo.1'' [RESULT_STR]) = Some Unreadable"
    by (simp add: unreadable_world_def)
  have g: "get_record_rows sample_env ''demo.1'' ([RESULT_STR] @ [STATUS]) False None =
     Inr [''0.93'', ''Ran Succesfully'']"
    by (simp add: get_record_rows_def truncate_values_def sample_env_def finished_record_def)
  have w: "warnings unreadable_world = []"
    by (simp add: unreadable_world_def)
  note T = unreadable_cache_file_is_a_miss [OF h, of False None, unfolded Let_def]
  note T2 = T [THEN conjunct2, THEN conjunct1]
  note T3 = T [THEN conjunct2, THEN conjunct2, THEN conjunct1]
  from T2 g have a: "fst (get_record_rows_cached sample_env ''demo.1'' [RESULT_STR] False None unreadable_world) = Inr [''0.93'']"
    by simp
  from T3 w have b: "warnings (snd (get_record_rows_cached sample_env ''demo.1'' [RESULT_STR] False None unreadable_world)) =
       [''Failed to load cached record info: demo.1'']"
    by (simp add: load_warning_def)
  from h a b show ?thesis by blast
qed

text \<open>
  Claim C10. The path of the cache file depends on the record id and the headers only.
  So when a call with one truncation limit and flag has found no file, computed a row and
  written the file, a later call for the same record and headers returns the content of
  that file as it is, whatever truncation limit and flag it is given, and changes nothing.
\<close>

theorem cache_key_ignores_truncation_and_flag:
  assumes "files w (cache_path E record_id headers) = None"
    and "get_record_rows E record_id (headers @ [STATUS]) raise1 truncate1 = Inr info_plus_status"
  shows "let w1 = snd (get_record_rows_cached E record_id headers raise1 truncate1 w)
         in files w1 (cache_path E record_id headers) = Some (Pickled (butlast (butlast info_plus_status)))
          \<and> get_record_rows_cached E record_id headers raise2 truncate2 w1 =
              (Inr (butlast (butlast info_plus_status)), w1)"
proof -
  let ?w1 = "snd (get_record_rows_cached E record_id headers raise1 truncate1 w)"
  have "?w1 = snd (compute_and_store E record_id headers raise1 truncate1 w)"
    using assms(1) by (simp add: get_record_rows_cached_def)
  then have "files ?w1 = (files w)(cache_path E record_id headers \<mapsto> Pickled (butlast (butlast info_plus_status)))"
    using assms(2) by (simp add: compute_and_store_files)
  then have f: "files ?w1 (cache_path E record_id headers) = Some (Pickled (butlast (butlast info_plus_status)))"
    by simp
  then have "get_record_rows_cached E record_id headers raise2 truncate2 ?w1 =
              (Inr (butlast (butlast info_plus_status)), ?w1)"
    by (simp add: get_record_rows_cached_def)
  with f show ?thesis by (simp add: Let_def)
qed

theorem cache_key_ignores_truncation_and_flag_witness:
  "files empty_world (cache_path sample_env ''demo.1'' [RUNS, RESULT_STR]) = None
   \<and> get_record_rows sample_env ''demo.1'' ([RUNS, RESULT_STR] @ [STATUS]) False (Some 5) =
       Inr [''20...'', ''0.93'', ''Ra...'']
   \<and> get_record_rows_cached sample_env ''demo.1'' [RUNS, RESULT_STR] True None
        (snd (get_record_rows_cached sample_env ''demo.1'' [RUNS, RESULT_STR] False (Some 5) empty_world)) =
       (Inr [''20...''],
        snd (get_record_rows_cached sample_env ''demo.1'' [RUNS, RESULT_STR] False (Some 5) empty_world))"
proof -
  have h1: "files empty_world (cache_path sample_env ''demo.1'' [RUNS, RESULT_STR]) = None"
    by (simp add: empty_world_def)
  have h2: "get_record_rows sample_env ''demo.1'' ([RUNS, RESULT_STR] @ [STATUS]) False (Some 5) =
       Inr [''20...'', ''0.93'', ''Ra...'']"
    by (simp add: get_record_rows_def truncate_values_def sample_env_def finished_record_def
        sample_truncate_string_def)
  have b: "butlast (butlast [''20...'', ''0.93'', ''Ra...'']) = [''20...'']"
    by simp
  note T = cache_key_ignores_truncation_and_flag [OF h1 h2, of True None, unfolded Let_def b]
  from h1 h2 T [THEN conjunct2] show ?thesis by blast
qed

text \<open>
  Claim C1, evaluated on the code. The record \<open>demo.1\<close> has run to completion. The first
  fetch of its result column returns one cell and writes the cache file, but the file
  receives \<open>info[:-1]\<close>, the row without its last cell; the second fetch is served from the
  file and returns the empty row. The two calls do not return the same values.
\<close>

theorem cached_fetch_twice_differs:
  "fst (get_record_rows_cached sample_env ''demo.1'' [RESULT_STR] False (Some 100) empty_world) =
     Inr [''0.93'']
   \<and> files (snd (get_record_rows_cached sample_env ''demo.1'' [RESULT_STR] False (Some 100) empty_world))
       (cache_path sample_env ''demo.1'' [RESULT_STR]) = Some (Pickled [])
   \<and> fst (get_record_rows_cached sample_env ''demo.1'' [RESULT_STR] False (Some 100)
          (snd (get_record_rows_cached sample_env ''demo.1'' [RESULT_STR] False (Some 100) empty_world))) =
     Inr []"
  by (simp add: sample_defs)

text \<open>
  Claim C2, evaluated on the code. Three headers are requested for the record \<open>demo.1\<close>.
  The first fetch (a miss) returns three cells; the second fetch (a hit on the file the
  first one wrote) returns two cells.
\<close>

theorem cached_hit_row_is_one_cell_short:
  "fst (get_record_rows_cached sample_env ''demo.1'' [RUNS, DURATION, RESULT_STR] False None empty_world) =
     Inr [''2017.03.01T12:00:00'', ''3.2s'', ''0.93'']
   \<and> fst (get_record_rows_cached sample_env ''demo.1'' [RUNS, DURATION, RESULT_STR] False None
          (snd (get_record_rows_cached sample_env ''demo.1'' [RUNS, DURATION, RESULT_STR] False None empty_world))) =
     Inr [''2017.03.01T12:00:00'', ''3.2s'']
   \<and> length [RUNS, DURATION, RESULT_STR] = 3
   \<and> length [''2017.03.01T12:00:00'', ''3.2s''] = 2"
  by (simp add: sample_defs)

section \<open>Properties of the command dispatcher\<close>

lemma index_of_less: "v \<in> set xs \<Longrightarrow> index_of xs v < length xs"
  by (induction xs) auto

lemma index_of_nth: "v \<in> set xs \<Longrightarrow> xs ! index_of xs v = v"
  by (induction xs) auto

lemma closest_command_is_closest:
  assumes "keys \<noteq> []"
  shows "closest_command keys cmd \<in> set keys
       \<and> levenshtein_distance cmd (closest_command keys cmd) = Min (levenshtein_distance cmd ` set keys)
       \<and> min_list (map (levenshtein_distance cmd) keys) = Min (levenshtein_distance cmd ` set keys)"
proof -
  let ?ds = "map (levenshtein_distance cmd) keys"
  from assms have ne: "?ds \<noteq> []" by simp
  then have m: "min_list ?ds = Min (set ?ds)" by (rule min_list_Min)
  have "Min (set ?ds) \<in> set ?ds" using ne by (intro Min_in) simp_all
  with m have mem: "min_list ?ds \<in> set ?ds" by simp
  have i: "index_of ?ds (min_list ?ds) < length keys"
    using index_of_less [OF mem] by simp
  have "?ds ! index_of ?ds (min_list ?ds) = min_list ?ds"
    by (rule index_of_nth [OF mem])
  with i have d: "levenshtein_distance cmd (keys ! index_of ?ds (min_list ?ds)) = min_list ?ds"
    by simp
  from i have k: "keys ! index_of ?ds (min_list ?ds) \<in> set keys" by simp
  from m have m': "min_list ?ds = Min (levenshtein_distance cmd ` set keys)" by simp
  from k d m' show ?thesis by (simp add: closest_command_def Let_def)
qed

lemma suggestion_closest:
  "suggestion keys cmd =
     (if min_list (map (levenshtein_distance cmd) keys) \<le> 2
      then did_you_mean (closest_command keys cmd) else '''')"
  by (simp add: suggestion_def closest_command_def Let_def)

lemma fliter_only_filter:
  "list_all (\<lambda>k. levenshtein_distance ''fliter'' k \<le> 2 \<longrightarrow> k = ''filter'') func_dict_keys"
  by code_simp

lemma fliter_filter: "levenshtein_distance ''fliter'' ''filter'' = 2"
  by code_simp

lemma filter_registered: "''filter'' \<in> set func_dict_keys"
  by (simp add: func_dict_keys_def)

lemma fliter_suggestion:
  assumes "set keys = set func_dict_keys"
  shows "suggestion keys ''fliter'' = did_you_mean ''filter''"
proof -
  from assms filter_registered have ne: "keys \<noteq> []" by auto
  note C = closest_command_is_closest [OF ne, of "''fliter''"]
  let ?m = "Min (levenshtein_distance ''fliter'' ` set keys)"
  have "?m \<le> levenshtein_distance ''fliter'' ''filter''"
    using assms filter_registered by (intro Min_le) auto
  then have le: "?m \<le> 2" by (simp add: fliter_filter)
  from C have "closest_command keys ''fliter'' \<in> set func_dict_keys"
    using assms by simp
  moreover from C le have "levenshtein_distance ''fliter'' (closest_command keys ''fliter'') \<le> 2"
    by simp
  ultimately have "closest_command keys ''fliter'' = ''filter''"
    using fliter_only_filter by (simp add: list_all_iff)
  with C le show ?thesis by (simp add: suggestion_closest)
qed

text \<open>
  Claim C6. For a token that is unrecognised (not empty, not a key of \<open>func_dict\<close>, not
  numeric, not \<open>r\<close>) the dispatcher asks the user with the text spelled out below. The
  closest command is a registered name at the least Levenshtein distance from the token;
  the text asks whether that name was meant exactly when the least distance is at most 2,
  and holds no suggestion when it is greater. For the token \<open>fliter\<close> the text names
  \<open>filter\<close>, in whatever order the dictionary lists its keys (the distance is 2 and no
  other command is that close).
\<close>

theorem unrecognised_command_suggestion:
  assumes "keys \<noteq> []"
    and "split_on CHR '' '' user_input = cmd # args"
    and "cmd \<noteq> ''''" and "cmd \<notin> set keys"
    and "interpret_numbers cmd = Inr None" and "cmd \<noteq> ''r''"
  shows "closest_command keys cmd \<in> set keys
       \<and> levenshtein_distance cmd (closest_command keys cmd) =
           Min (levenshtein_distance cmd ` set keys)
       \<and> dispatch interpret_numbers keys user_input =
           Inr (Ask_unrecognised
                  (''Unrecognised command: '' @ [CHR 0x22] @ cmd @ [CHR 0x22] @ ''. ''
                   @ (if Min (levenshtein_distance cmd ` set keys) \<le> 2
                      then '' Did you mean '' @ [CHR 0x22] @ closest_command keys cmd @ [CHR 0x22] @ ''?.  ''
                      else '''')
                   @ ''Type '' @ [CHR 0x22] @ ''h'' @ [CHR 0x22] @ '' for help or Enter to continue. >''))
       \<and> (cmd = ''fliter'' \<and> set keys = set func_dict_keys \<longrightarrow>
            dispatch interpret_numbers keys user_input =
              Inr (Ask_unrecognised
                     (''Unrecognised command: '' @ [CHR 0x22] @ ''fliter'' @ [CHR 0x22] @ ''. ''
                      @ '' Did you mean '' @ [CHR 0x22] @ ''filter'' @ [CHR 0x22] @ ''?.  ''
                      @ ''Type '' @ [CHR 0x22] @ ''h'' @ [CHR 0x22] @ '' for help or Enter to continue. >'')))"
proof -
  note C = closest_command_is_closest [OF assms(1), of cmd]
  have d: "dispatch interpret_numbers keys user_input =
             Inr (Ask_unrecognised
                    (''Unrecognised command: '' @ [CHR 0x22] @ cmd @ [CHR 0x22] @ ''. ''
                     @ suggestion keys cmd
                     @ ''Type '' @ [CHR 0x22] @ ''h'' @ [CHR 0x22] @ '' for help or Enter to continue. >''))"
    using assms(2-6) by (simp add: dispatch_def unrecognised_prompt_def)
  have s: "suggestion keys cmd =
             (if Min (levenshtein_distance cmd ` set keys) \<le> 2
              then '' Did you mean '' @ [CHR 0x22] @ closest_command keys cmd @ [CHR 0x22] @ ''?.  ''
              else '''')"
    using C by (simp add: suggestion_closest did_you_mean_def)
  have a: "dispatch interpret_numbers keys user_input =
           Inr (Ask_unrecognised
                  (''Unrecognised command: '' @ [CHR 0x22] @ cmd @ [CHR 0x22] @ ''. ''
                   @ (if Min (levenshtein_distance cmd ` set keys) \<le> 2
                      then '' Did you mean '' @ [CHR 0x22] @ closest_command keys cmd @ [CHR 0x22] @ ''?.  ''
                      else '''')
                   @ ''Type '' @ [CHR 0x22] @ ''h'' @ [CHR 0x22] @ '' for help or Enter to continue. >''))"
    by (simp only: d s)
  have b: "cmd = ''fliter'' \<and> set keys = set func_dict_keys \<longrightarrow>
            dispatch interpret_numbers keys user_input =
              Inr (Ask_unrecognised
                     (''Unrecognised command: '' @ [CHR 0x22] @ ''fliter'' @ [CHR 0x22] @ ''. ''
                      @ '' Did you mean '' @ [CHR 0x22] @ ''filter'' @ [CHR 0x22] @ ''?.  ''
                      @ ''Type '' @ [CHR 0x22] @ ''h'' @ [CHR 0x22] @ '' for help or Enter to continue. >''))"
  proof
    assume h: "cmd = ''fliter'' \<and> set keys = set func_dict_keys"
    then have "suggestion keys cmd = '' Did you mean '' @ [CHR 0x22] @ ''filter'' @ [CHR 0x22] @ ''?.  ''"
      using fliter_suggestion [of keys] by (simp add: did_you_mean_def)
    with d h show "dispatch interpret_numbers keys user_input =
              Inr (Ask_unrecognised
                     (''Unrecognised command: '' @ [CHR 0x22] @ ''fliter'' @ [CHR 0x22] @ ''. ''
                      @ '' Did you mean '' @ [CHR 0x22] @ ''filter'' @ [CHR 0x22] @ ''?.  ''
                      @ ''Type '' @ [CHR 0x22] @ ''h'' @ [CHR 0x22] @ '' for help or Enter to continue. >''))"
      by simp
  qed
  from C a b show ?thesis by blast
qed

lemma zzzzzz_far: "\<not> Min (levenshtein_distance ''zzzzzz'' ` set func_dict_keys) \<le> 2"
proof -
  have "list_all (\<lambda>k. 2 < levenshtein_distance ''zzzzzz'' k) func_dict_keys"
    by code_simp
  then have "\<forall>d \<in> levenshtein_distance ''zzzzzz'' ` set func_dict_keys. 2 < d"
    by (simp add: list_all_iff)
  moreover have "Min (levenshtein_distance ''zzzzzz'' ` set func_dict_keys)
                   \<in> levenshtein_distance ''zzzzzz'' ` set func_dict_keys"
    by (intro Min_in) (simp_all add: func_dict_keys_def)
  ultimately show ?thesis by (meson not_le)
qed

theorem unrecognised_command_suggestion_witness:
  "func_dict_keys \<noteq> []
   \<and> split_on CHR '' '' ''fliter'' = [''fliter'']
   \<and> ''fliter'' \<noteq> ''''
   \<and> ''fliter'' \<notin> set func_dict_keys
   \<and> sample_interpret_numbers ''fliter'' = Inr None
   \<and> ''fliter'' \<noteq> ''r''
   \<and> dispatch sample_interpret_numbers func_dict_keys ''fliter'' =
       Inr (Ask_unrecognised
              (''Unrecognised command: '' @ [CHR 0x22] @ ''fliter'' @ [CHR 0x22] @ ''. ''
               @ '' Did you mean '' @ [CHR 0x22] @ ''filter'' @ [CHR 0x22] @ ''?.  ''
               @ ''Type '' @ [CHR 0x22] @ ''h'' @ [CHR 0x22] @ '' for help or Enter to continue. >''))
   \<and> split_on CHR '' '' ''zzzzzz'' = [''zzzzzz'']
   \<and> ''zzzzzz'' \<notin> set func_dict_keys
   \<and> sample_interpret_numbers ''zzzzzz'' = Inr None
   \<and> dispatch sample_interpret_numbers func_dict_keys ''zzzzzz'' =
       Inr (Ask_unrecognised
              (''Unrecognised command: '' @ [CHR 0x22] @ ''zzzzzz'' @ [CHR 0x22] @ ''. ''
               @ ''Type '' @ [CHR 0x22] @ ''h'' @ [CHR 0x22] @ '' for help or Enter to continue. >''))"
proof -
  have h1: "func_dict_keys \<noteq> []" by (simp add: func_dict_keys_def)
  have h2: "split_on CHR '' '' ''fliter'' = [''fliter'']" by simp
  have h3: "''fliter'' \<noteq> ''''" by simp
  have h4: "''fliter'' \<notin> set func_dict_keys" by (simp add: func_dict_keys_def)
  have h5: "sample_interpret_numbers ''fliter'' = Inr None" by (simp add: sample_interpret_numbers_def)
  have h6: "''fliter'' \<noteq> ''r''" by simp
  note T = unrecognised_command_suggestion
    [where interpret_numbers = sample_interpret_numbers, OF h1 h2 h3 h4 h5 h6]
  from T have a: "dispatch sample_interpret_numbers func_dict_keys ''fliter'' =
       Inr (Ask_unrecognised
              (''Unrecognised command: '' @ [CHR 0x22] @ ''fliter'' @ [CHR 0x22] @ ''. ''
               @ '' Did you mean '' @ [CHR 0x22] @ ''filter'' @ [CHR 0x22] @ ''?.  ''
               @ ''Type '' @ [CHR 0x22] @ ''h'' @ [CHR 0x22] @ '' for help or Enter to continue. >''))"
    by blast
  have g2: "split_on CHR '' '' ''zzzzzz'' = [''zzzzzz'']" by simp
  have g3: "''zzzzzz'' \<noteq> ''''" by simp
  have g4: "''zzzzzz'' \<notin> set func_dict_keys" by (simp add: func_dict_keys_def)
  have g5: "sample_interpret_numbers ''zzzzzz'' = Inr None" by (simp add: sample_interpret_numbers_def)
  have g6: "''zzzzzz'' \<noteq> ''r''" by simp
  note U = unrecognised_command_suggestion
    [where interpret_numbers = sample_interpret_numbers, OF h1 g2 g3 g4 g5 g6,
     THEN conjunct2, THEN conjunct2, THEN conjunct1]
  from U zzzzzz_far have b: "dispatch sample_interpret_numbers func_dict_keys ''zzzzzz'' =
       Inr (Ask_unrecognised
              (''Unrecognised command: '' @ [CHR 0x22] @ ''zzzzzz'' @ [CHR 0x22] @ ''. ''
               @ ''Type '' @ [CHR 0x22] @ ''h'' @ [CHR 0x22] @ '' for help or Enter to continue. >''))"
    by simp
  from h1 h2 h3 h4 h5 h6 a g2 g4 g5 b show ?thesis by blast
qed

text \<open>
  Claim C7. When the first token of the line is not empty, is not a key of \<open>func_dict\<close>
  and is numeric for \<open>interpret_numbers\<close>, the dispatcher calls \<open>self.run\<close> with that token
  and the argument tokens, to which it has appended \<open>-e\<close> exactly when none of \<open>-s\<close>,
  \<open>-e\<close>, \<open>-p\<close> is among them.
\<close>

theorem numeric_shorthand_runs:
  assumes "split_on CHR '' '' user_input = cmd # args"
    and "cmd \<noteq> ''''" and "cmd \<notin> set keys"
    and "interpret_numbers cmd = Inr (Some numbers)"
  shows "dispatch interpret_numbers keys user_input =
           Inr (Call_run cmd
                  (if ''-s'' \<in> set args \<or> ''-e'' \<in> set args \<or> ''-p'' \<in> set args
                   then args else args @ [''-e'']))"
  using assms by (simp add: dispatch_def)

theorem numeric_shorthand_runs_witness:
  "split_on CHR '' '' ''4 -n baseline'' = [''4'', ''-n'', ''baseline'']
   \<and> ''4'' \<noteq> ''''
   \<and> ''4'' \<notin> set func_dict_keys
   \<and> sample_interpret_numbers ''4'' = Inr (Some [4])
   \<and> dispatch sample_interpret_numbers func_dict_keys ''4 -n baseline'' =
       Inr (Call_run ''4'' [''-n'', ''baseline'', ''-e''])
   \<and> split_on CHR '' '' ''7 -p'' = [''7'', ''-p'']
   \<and> dispatch sample_interpret_numbers func_dict_keys ''7 -p'' = Inr (Call_run ''7'' [''-p''])"
proof -
  have h1: "split_on CHR '' '' ''4 -n baseline'' = [''4'', ''-n'', ''baseline'']" by simp
  have h2: "''4'' \<noteq> ''''" by simp
  have h3: "''4'' \<notin> set func_dict_keys" by (simp add: func_dict_keys_def)
  have h4: "sample_interpret_numbers ''4'' = Inr (Some [4])"
    by (simp add: sample_interpret_numbers_def)
  from numeric_shorthand_runs [where interpret_numbers = sample_interpret_numbers, OF h1 h2 h3 h4]
  have a: "dispatch sample_interpret_numbers func_dict_keys ''4 -n baseline'' =
       Inr (Call_run ''4'' [''-n'', ''baseline'', ''-e''])"
    by simp
  have g1: "split_on CHR '' '' ''7 -p'' = [''7'', ''-p'']" by simp
  have g2: "''7'' \<noteq> ''''" by simp
  have g3: "''7'' \<notin> set func_dict_keys" by (simp add: func_dict_keys_def)
  have g4: "sample_interpret_numbers ''7'' = Inr (Some [7])"
    by (simp add: sample_interpret_numbers_def)
  from numeric_shorthand_runs [where interpret_numbers = sample_interpret_numbers, OF g1 g2 g3 g4]
  have b: "dispatch sample_interpret_numbers func_dict_keys ''7 -p'' = Inr (Call_run ''7'' [''-p''])"
    by simp
  from h1 h2 h3 h4 a g1 b show ?thesis by blast
qed

section \<open>Properties of the delete handlers\<close>

lemma lower_YES: "lower ''YES'' = ''yes''"
  by (simp add: lower_def lower_char_def)

lemma clear_calls_clear:
  "clear_calls (clear_experiment_records ids s) = clear_calls s @ [ids]"
  by (simp add: clear_experiment_records_def)

lemma experiment_browser_delete_confirmation:
  assumes "select user_range = Inr records" and "stdin s = response # rest"
  shows "clear_calls (snd (experiment_browser_delete select close_after user_range s)) =
           (if lower response = ''yes'' then clear_calls s @ [records] else clear_calls s)
       \<and> record_store (snd (experiment_browser_delete select close_after user_range s)) =
           (if lower response = ''yes'' then filter (\<lambda>r. r \<notin> set records) (record_store s)
            else record_store s)"
  using assms
  by (auto simp: experiment_browser_delete_def raw_input_def warn_with_prompt_def
      clear_experiment_records_def split: list.splits)

lemma experiment_record_browser_delete_confirmation:
  assumes "select user_range = Inr ids" and "stdin s = conf # rest"
  shows "clear_calls (snd (experiment_record_browser_delete select get_all_record_ids user_range s)) =
           (if conf = ''yes'' then clear_calls s @ [ids] else clear_calls s)
       \<and> record_store (snd (experiment_record_browser_delete select get_all_record_ids user_range s)) =
           (if conf = ''yes'' then filter (\<lambda>r. r \<notin> set ids) (record_store s)
            else record_store s)"
  using assms
  by (auto simp: experiment_record_browser_delete_def raw_input_def warn_with_prompt_def
      clear_experiment_records_def Let_def split: list.splits)

text \<open>
  Claim C8, evaluated on the code. The confirmation \<open>YES\<close> equals \<open>yes\<close> when compared
  without regard to case. \<open>ExperimentBrowser.delete\<close> lowers the answer before comparing
  and deletes the selected records; \<open>ExperimentRecordBrowser.delete\<close> compares the answer
  as typed, makes no call of \<open>clear_experiment_records\<close> and leaves the records on disk
  (it deletes on the answer \<open>yes\<close> only).
\<close>

theorem record_browser_delete_is_case_sensitive:
  "lower ''YES'' = ''yes''
   \<and> clear_calls (snd (experiment_browser_delete sample_select False ''all'' (sample_session [''YES'', '''']))) =
       [[''demo.1'', ''demo.2'']]
   \<and> record_store (snd (experiment_browser_delete sample_select False ''all'' (sample_session [''YES'', '''']))) = []
   \<and> clear_calls (snd (experiment_record_browser_delete sample_select id ''all'' (sample_session [''YES'', '''']))) = []
   \<and> record_store (snd (experiment_record_browser_delete sample_select id ''all'' (sample_session [''YES'', '''']))) =
       [''demo.1'', ''demo.2'']
   \<and> clear_calls (snd (experiment_record_browser_delete sample_select id ''all'' (sample_session [''yes'']))) =
       [[''demo.1'', ''demo.2'']]"
  by (simp add: lower_def lower_char_def experiment_browser_delete_def
      experiment_record_browser_delete_def raw_input_def warn_with_prompt_def
      clear_experiment_records_def sample_select_def sample_session_def Let_def)

section \<open>Properties of the nested table\<close>

lemma record_rows_loop_length:
  "record_rows_loop row_func j record_ids w = (Inr rows, w1) \<Longrightarrow> length rows = length record_ids"
  by (induction record_ids arbitrary: j w rows w1)
     (auto split: prod.splits sum.splits)

lemma nested_loop_shape:
  "nested_loop row_func i counter exps w = (Inr (record_rows, experiment_rows, ixs), w1) \<Longrightarrow>
   length record_rows = sum_list (map (length \<circ> snd) exps)
   \<and> length experiment_rows = length exps
   \<and> ixs = starts counter (map (length \<circ> snd) exps)"
proof (induction exps arbitrary: i counter w record_rows experiment_rows ixs w1)
  case Nil
  then show ?case by simp
next
  case (Cons p exps)
  obtain exp_id record_ids where p: "p = (exp_id, record_ids)" by (cases p)
  from Cons.prems p obtain rows wa rr er ix where
    a: "record_rows_loop row_func 0 record_ids w = (Inr rows, wa)" and
    b: "nested_loop row_func (Suc i) (counter + length record_ids) exps wa = (Inr (rr, er, ix), w1)" and
    c: "record_rows = rows @ rr" "experiment_rows = [Int_cell i, Text_cell '''', Text_cell exp_id] # er"
       "ixs = counter # ix"
    by (auto split: prod.splits sum.splits)
  from Cons.IH [OF b] record_rows_loop_length [OF a] c p show ?case by simp
qed

lemma starts_offsets:
  "starts c (map (length \<circ> snd) exps) = map (\<lambda>k. c + records_before exps k) [0..<length exps]"
proof (induction exps arbitrary: c)
  case Nil
  then show ?case by simp
next
  case (Cons p exps)
  have "map (\<lambda>k. c + records_before (p # exps) k) [0..<length (p # exps)] =
        (c + records_before (p # exps) 0) # map (\<lambda>k. c + records_before (p # exps) (Suc k)) [0..<length exps]"
    by (simp add: map_upt_Suc del: upt_Suc)
  also have "\<dots> = c # map (\<lambda>k. (c + length (snd p)) + records_before exps k) [0..<length exps]"
    by (simp add: records_before_def)
  also have "\<dots> = starts c (map (length \<circ> snd) (p # exps))"
    by (simp add: Cons.IH)
  finally show ?case by (rule sym)
qed

lemma sorted_starts_aux: "\<forall>x \<in> set (starts c ns). c \<le> x"
proof (induction ns arbitrary: c)
  case Nil
  then show ?case by simp
next
  case (Cons n ns)
  from Cons.IH [of "c + n"] show ?case by auto
qed

lemma sorted_starts: "sorted (starts c ns)"
proof (induction ns arbitrary: c)
  case Nil
  then show ?case by simp
next
  case (Cons n ns)
  from sorted_starts_aux [of "c + n" ns] have "\<forall>x \<in> set (starts (c + n) ns). c \<le> x" by auto
  with Cons.IH [of "c + n"] show ?case by simp
qed

lemma length_starts: "length (starts c ns) = length ns"
  by (induction ns arbitrary: c) simp_all

lemma splice_emit:
  "splice i xs ((i, g) # ps) = (case splice i xs ps of Inl e \<Rightarrow> Inl e | Inr ys \<Rightarrow> Inr (g # ys))"
  by (cases xs) simp_all

lemma splice_skip:
  "ps = [] \<or> i + length b \<le> fst (hd ps) \<Longrightarrow>
   splice i (b @ xs) ps = (case splice (i + length b) xs ps of Inl e \<Rightarrow> Inl e | Inr ys \<Rightarrow> Inr (b @ ys))"
proof (induction b arbitrary: i)
  case Nil
  then show ?case by (simp split: sum.splits)
next
  case (Cons x b)
  show ?case
  proof (cases ps)
    case Nil
    then show ?thesis by simp
  next
    case (Cons p ps')
    obtain k g where p: "p = (k, g)" by (cases p)
    from Cons.prems Cons p have k: "i + length (x # b) \<le> k" by simp
    then have "k \<noteq> i" by simp
    moreover have "splice (Suc i) (b @ xs) ps =
        (case splice (Suc i + length b) xs ps of Inl e \<Rightarrow> Inl e | Inr ys \<Rightarrow> Inr (b @ ys))"
      using k Cons p by (intro Cons.IH) simp
    ultimately show ?thesis using Cons p by (simp split: sum.splits)
  qed
qed

lemma splice_blocks:
  "length gs = length bs \<Longrightarrow>
   splice i (concat bs) (zip (starts i (map length bs)) gs) = Inr (concat (map2 (#) gs bs))"
proof (induction bs arbitrary: i gs)
  case Nil
  then show ?case by simp
next
  case (Cons b bs)
  from Cons.prems obtain g gs' where gs: "gs = g # gs'" and len: "length gs' = length bs"
    by (cases gs) auto
  let ?ps = "zip (starts (i + length b) (map length bs)) gs'"
  have hd: "?ps = [] \<or> i + length b \<le> fst (hd ?ps)"
  proof (cases bs)
    case Nil
    then show ?thesis by simp
  next
    case (Cons b' bs')
    with len obtain g' gs'' where "gs' = g' # gs''" by (cases gs') auto
    with Cons show ?thesis by simp
  qed
  have "splice i (b @ concat bs) ?ps =
      (case splice (i + length b) (concat bs) ?ps of Inl e \<Rightarrow> Inl e | Inr ys \<Rightarrow> Inr (b @ ys))"
    by (rule splice_skip [OF hd])
  also have "\<dots> = Inr (b @ concat (map2 (#) gs' bs))"
    by (simp add: Cons.IH [OF len])
  finally show ?case using gs by (simp add: splice_emit)
qed

lemma chunks_concat:
  "length xs = sum_list ns \<Longrightarrow> concat (chunks ns xs) = xs \<and> map length (chunks ns xs) = ns"
proof (induction ns arbitrary: xs)
  case Nil
  then show ?case by simp
next
  case (Cons n ns)
  then have "length (drop n xs) = sum_list ns" by simp
  from Cons.IH [OF this] Cons.prems show ?case by simp
qed

lemma insert_at_blocks:
  assumes "length hs = c" and "length xs = sum_list ns" and "length gs = length ns"
  shows "insert_at (hs @ xs) gs (starts c ns) = Inr (hs @ concat (map2 (#) gs (chunks ns xs)))"
proof -
  from chunks_concat [OF assms(2)] have cc: "concat (chunks ns xs) = xs"
    and ml: "map length (chunks ns xs) = ns" by simp_all
  have lc: "length gs = length (chunks ns xs)"
    using ml assms(3) by (metis length_map)
  let ?ps = "zip (starts c ns) gs"
  have hd: "?ps = [] \<or> 0 + length hs \<le> fst (hd ?ps)"
  proof (cases ns)
    case Nil
    then show ?thesis by simp
  next
    case (Cons n ns')
    with assms(3) obtain g gs' where "gs = g # gs'" by (cases gs) auto
    with Cons assms(1) show ?thesis by simp
  qed
  have "splice 0 (hs @ xs) ?ps =
      (case splice (0 + length hs) xs ?ps of Inl e \<Rightarrow> Inl e | Inr ys \<Rightarrow> Inr (hs @ ys))"
    by (rule splice_skip [OF hd])
  also have "splice (0 + length hs) xs ?ps =
      splice c (concat (chunks ns xs)) (zip (starts c (map length (chunks ns xs))) gs)"
    using assms(1) cc ml by simp
  also have "\<dots> = Inr (concat (map2 (#) gs (chunks ns xs)))"
    by (rule splice_blocks [OF lc])
  finally have "splice 0 (hs @ xs) ?ps = Inr (hs @ concat (map2 (#) gs (chunks ns xs)))"
    by simp
  moreover have "sort (starts c ns) = starts c ns"
    by (simp add: sorted_starts sort_key_id_if_sorted)
  ultimately show ?thesis
    using assms(3) by (simp add: insert_at_def length_starts)
qed

text \<open>
  Claim C9. In nested mode, when all rows were fetched and the two tables have the shape
  of a \<open>tabulate\<close> rendering (two title lines and one line for each record; one content line
  for each experiment between the borders), the index recorded for the \<open>k\<close>-th experiment
  is 2 plus the number of records of the experiments before it, and the rows returned are
  the two title lines of the record table followed, for each experiment in order, by its
  line of the experiment table and then the lines of its own records. So the line of every
  experiment comes before all lines of its records. The table returned is these lines
  joined by newlines.
\<close>

theorem nested_rows_layout:
  assumes "nested_loop row_func 0 2 exp_record_dict w =
             (Inr (record_rows, experiment_rows, experiment_row_ixs), w1)"
    and "length (split_on (CHR 0x0A) (tabulate_headers record_rows ([''E#'', ''R#''] @ header_names))) =
           2 + length record_rows"
    and "length (butlast (tl (split_on (CHR 0x0A) (tabulate_plain experiment_rows)))) =
           length experiment_rows"
  shows "let record_table_rows =
               split_on (CHR 0x0A) (tabulate_headers record_rows ([''E#'', ''R#''] @ header_names));
             experiment_table_rows =
               butlast (tl (split_on (CHR 0x0A) (tabulate_plain experiment_rows)))
         in experiment_row_ixs =
              map (\<lambda>k. 2 + records_before exp_record_dict k) [0..<length exp_record_dict]
          \<and> nested_table_rows tabulate_headers tabulate_plain row_func header_names exp_record_dict w =
              (Inr (take 2 record_table_rows @
                    concat (map2 (#) experiment_table_rows
                              (chunks (map (length \<circ> snd) exp_record_dict) (drop 2 record_table_rows)))),
               w1)
          \<and> get_experiment_list_str_nested tabulate_headers tabulate_plain row_func header_names
                exp_record_dict w =
              (Inr (join [CHR 0x0A]
                      (take 2 record_table_rows @
                       concat (map2 (#) experiment_table_rows
                                 (chunks (map (length \<circ> snd) exp_record_dict) (drop 2 record_table_rows))))),
               w1)"
proof -
  let ?L = "split_on (CHR 0x0A) (tabulate_headers record_rows ([''E#'', ''R#''] @ header_names))"
  let ?G = "butlast (tl (split_on (CHR 0x0A) (tabulate_plain experiment_rows)))"
  let ?ns = "map (length \<circ> snd) exp_record_dict"
  from nested_loop_shape [OF assms(1)] have
    rr: "length record_rows = sum_list ?ns" and
    er: "length experiment_rows = length exp_record_dict" and
    ix: "experiment_row_ixs = starts 2 ?ns"
    by simp_all
  have a: "experiment_row_ixs =
              map (\<lambda>k. 2 + records_before exp_record_dict k) [0..<length exp_record_dict]"
    using ix by (simp only: starts_offsets)
  have h: "length (take 2 ?L) = 2" using assms(2) by simp
  have x: "length (drop 2 ?L) = sum_list ?ns" using assms(2) rr by simp
  have g: "length ?G = length ?ns" using assms(3) er by simp
  have "insert_at (take 2 ?L @ drop 2 ?L) ?G (starts 2 ?ns) =
          Inr (take 2 ?L @ concat (map2 (#) ?G (chunks ?ns (drop 2 ?L))))"
    by (rule insert_at_blocks [OF h x g])
  then have "insert_at ?L ?G experiment_row_ixs =
          Inr (take 2 ?L @ concat (map2 (#) ?G (chunks ?ns (drop 2 ?L))))"
    using ix by simp
  then have b: "nested_table_rows tabulate_headers tabulate_plain row_func header_names exp_record_dict w =
              (Inr (take 2 ?L @ concat (map2 (#) ?G (chunks ?ns (drop 2 ?L)))), w1)"
    using assms(1) by (simp add: nested_table_rows_def Let_def)
  have c: "get_experiment_list_str_nested tabulate_headers tabulate_plain row_func header_names
                exp_record_dict w =
              (Inr (join [CHR 0x0A] (take 2 ?L @ concat (map2 (#) ?G (chunks ?ns (drop 2 ?L))))), w1)"
    by (simp add: get_experiment_list_str_nested_def b)
  from a b c show ?thesis by (simp only: Let_def) 
qed

theorem nested_rows_layout_witness:
  "nested_loop sample_row_func 0 2 sample_exp_record_dict () =
     (Inr ([[Text_cell '''', Int_cell 0, Text_cell ''Ran Succesfully''],
            [Text_cell '''', Int_cell 1, Text_cell ''Running (or Killed)''],
            [Text_cell '''', Int_cell 0, Text_cell ''Error'']],
           [[Int_cell 0, Text_cell '''', Text_cell ''exp_a''],
            [Int_cell 1, Text_cell '''', Text_cell ''exp_b''],
            [Int_cell 2, Text_cell '''', Text_cell ''exp_c'']],
           [2, 4, 4]), ())
   \<and> length (split_on (CHR 0x0A) (sample_tabulate_headers
          [[Text_cell '''', Int_cell 0, Text_cell ''Ran Succesfully''],
           [Text_cell '''', Int_cell 1, Text_cell ''Running (or Killed)''],
           [Text_cell '''', Int_cell 0, Text_cell ''Error'']] ([''E#'', ''R#''] @ [''Status'']))) =
       2 + length [[Text_cell '''', Int_cell 0, Text_cell ''Ran Succesfully''],
                   [Text_cell '''', Int_cell 1, Text_cell ''Running (or Killed)''],
                   [Text_cell '''', Int_cell 0, Text_cell ''Error'']]
   \<and> length (butlast (tl (split_on (CHR 0x0A) (sample_tabulate_plain
          [[Int_cell 0, Text_cell '''', Text_cell ''exp_a''],
           [Int_cell 1, Text_cell '''', Text_cell ''exp_b''],
           [Int_cell 2, Text_cell '''', Text_cell ''exp_c'']])))) =
       length [[Int_cell 0, Text_cell '''', Text_cell ''exp_a''],
               [Int_cell 1, Text_cell '''', Text_cell ''exp_b''],
               [Int_cell 2, Text_cell '''', Text_cell ''exp_c'']]
   \<and> nested_table_rows sample_tabulate_headers sample_tabulate_plain sample_row_func [''Status'']
         sample_exp_record_dict () =
       (Inr [''E#  R#  Status'', ''----'',
             ''0    exp_a'', ''  0  Ran Succesfully'', ''  1  Running (or Killed)'',
             ''1    exp_b'',
             ''2    exp_c'', ''  0  Error''], ())"
proof -
  let ?rr = "[[Text_cell '''', Int_cell 0, Text_cell ''Ran Succesfully''],
              [Text_cell '''', Int_cell 1, Text_cell ''Running (or Killed)''],
              [Text_cell '''', Int_cell 0, Text_cell ''Error'']]"
  let ?er = "[[Int_cell 0, Text_cell '''', Text_cell ''exp_a''],
              [Int_cell 1, Text_cell '''', Text_cell ''exp_b''],
              [Int_cell 2, Text_cell '''', Text_cell ''exp_c'']]"
  have h1: "nested_loop sample_row_func 0 2 sample_exp_record_dict () = (Inr (?rr, ?er, [2, 4, 4]), ())"
    by code_simp
  have h2: "length (split_on (CHR 0x0A) (sample_tabulate_headers ?rr ([''E#'', ''R#''] @ [''Status'']))) =
              2 + length ?rr"
    by code_simp
  have h3: "length (butlast (tl (split_on (CHR 0x0A) (sample_tabulate_plain ?er)))) = length ?er"
    by code_simp
  have e: "take 2 (split_on (CHR 0x0A) (sample_tabulate_headers ?rr ([''E#'', ''R#''] @ [''Status'']))) @
           concat (map2 (#) (butlast (tl (split_on (CHR 0x0A) (sample_tabulate_plain ?er))))
                     (chunks (map (length \<circ> snd) sample_exp_record_dict)
                        (drop 2 (split_on (CHR 0x0A) (sample_tabulate_headers ?rr ([''E#'', ''R#''] @ [''Status''])))))) =
           [''E#  R#  Status'', ''----'',
             ''0    exp_a'', ''  0  Ran Succesfully'', ''  1  Running (or Killed)'',
             ''1    exp_b'',
             ''2    exp_c'', ''  0  Error'']"
    by code_simp
  note T = nested_rows_layout [where tabulate_headers = sample_tabulate_headers
      and tabulate_plain = sample_tabulate_plain and header_names = "[''Status'']",
      OF h1 h2 h3, unfolded Let_def, THEN conjunct2, THEN conjunct1, unfolded e]
  from h1 h2 h3 T show ?thesis by blast
qed

end
